theory Spec2Isabelle
  imports Main
begin

section \<open>Values carried by a request\<close>

text \<open>
  The service is one Express application (\<^verbatim>\<open>src/unnamed/part_000\<close>) with four handlers
  over one table \<^verbatim>\<open>tasks\<close>. A request body is the object that \<^verbatim>\<open>bodyParser.json()\<close>
  leaves in \<^verbatim>\<open>req.body\<close>; reading a property that is absent gives \<^verbatim>\<open>undefined\<close>.
  Property values are JSON scalars: \<^verbatim>\<open>null\<close>, booleans, integral numbers and strings
  of characters with codes below 256. Arrays, objects and fractional numbers as
  property values are outside this model.
\<close>

datatype jsval = JUndefined | JNull | JBool bool | JNum int | JStr string

text \<open>Decimal digits of a number, as JavaScript prints an integer.\<close>

definition digit_char :: "nat \<Rightarrow> char" where
  "digit_char n = ''0123456789'' ! (n mod 10)"

function show_nat :: "nat \<Rightarrow> string" where
  "show_nat n = (if n < 10 then [digit_char n] else show_nat (n div 10) @ [digit_char n])"
  by pat_completeness auto
termination
  by (relation "measure (\<lambda>n. n)") auto

definition show_int :: "int \<Rightarrow> string" where
  "show_int k = (if k < 0 then CHR ''-'' # show_nat (nat (- k)) else show_nat (nat k))"

text \<open>
  \<^verbatim>\<open>String(v)\<close> of JavaScript, which \<^verbatim>\<open>parseInt\<close> applies to its argument. (JavaScript
  prints a number of magnitude \<open>10^21\<close> or more in exponent form; the model prints all
  digits. Only the emptiness of the result and its leading digits are ever used.)
\<close>

fun js_String :: "jsval \<Rightarrow> string" where
  "js_String JUndefined = ''undefined''"
| "js_String JNull = ''null''"
| "js_String (JBool b) = (if b then ''true'' else ''false'')"
| "js_String (JNum k) = show_int k"
| "js_String (JStr s) = s"

text \<open>
  \<^verbatim>\<open>toString\<close> of express-validator, applied to a value before a standard validator
  sees it: \<^verbatim>\<open>undefined\<close> and \<^verbatim>\<open>null\<close> become the empty string, every other scalar its
  \<^verbatim>\<open>String(v)\<close>.
\<close>

fun toString :: "jsval \<Rightarrow> string" where
  "toString JUndefined = ''''"
| "toString JNull = ''''"
| "toString v = js_String v"

section \<open>\<^verbatim>\<open>parseInt\<close>\<close>

text \<open>
  \<^verbatim>\<open>parseInt(s)\<close> with no radix: leading white space (space, tab, line feed, vertical
  tab, form feed, carriage return, no-break space) is skipped, one sign is read, a
  prefix \<^verbatim>\<open>0x\<close> or \<^verbatim>\<open>0X\<close> selects radix 16 (radix 10 otherwise), and the longest run of
  digits of that radix is the number; no digit at all gives \<^verbatim>\<open>NaN\<close>, here \<open>None\<close>.
  The model keeps the mathematical integer; JavaScript rounds it to a double, which is
  the same number up to \<open>2^53\<close>.
\<close>

definition is_ws :: "char \<Rightarrow> bool" where
  "is_ws c = (c \<in> set [CHR '' '', CHR 0x09, CHR 0x0A, CHR 0x0B, CHR 0x0C, CHR 0x0D, CHR 0xA0])"

definition is_digit :: "char \<Rightarrow> bool" where
  "is_digit c = (c \<in> set ''0123456789'')"

definition digit_value :: "char \<Rightarrow> nat option" where
  "digit_value c = map_of
     [(CHR ''0'', 0), (CHR ''1'', 1), (CHR ''2'', 2), (CHR ''3'', 3), (CHR ''4'', 4),
      (CHR ''5'', 5), (CHR ''6'', 6), (CHR ''7'', 7), (CHR ''8'', 8), (CHR ''9'', 9),
      (CHR ''a'', 10), (CHR ''b'', 11), (CHR ''c'', 12), (CHR ''d'', 13), (CHR ''e'', 14),
      (CHR ''f'', 15), (CHR ''A'', 10), (CHR ''B'', 11), (CHR ''C'', 12), (CHR ''D'', 13),
      (CHR ''E'', 14), (CHR ''F'', 15)] c"

definition radix_digit :: "nat \<Rightarrow> char \<Rightarrow> bool" where
  "radix_digit r c = (case digit_value c of None \<Rightarrow> False | Some d \<Rightarrow> d < r)"

definition radix_value :: "nat \<Rightarrow> string \<Rightarrow> nat" where
  "radix_value r z = foldl (\<lambda>a c. a * r + (case digit_value c of None \<Rightarrow> 0 | Some d \<Rightarrow> d)) 0 z"

definition strip_sign :: "string \<Rightarrow> int \<times> string" where
  "strip_sign s = (case s of
       [] \<Rightarrow> (1, [])
     | c # cs \<Rightarrow> if c = CHR ''-'' then (- 1, cs) else if c = CHR ''+'' then (1, cs) else (1, s))"

definition strip_prefix :: "string \<Rightarrow> nat \<times> string" where
  "strip_prefix s = (if take 2 s = ''0x'' \<or> take 2 s = ''0X'' then (16, drop 2 s) else (10, s))"

definition parseInt :: "string \<Rightarrow> int option" where
  "parseInt s =
     (let (sign, s1) = strip_sign (dropWhile is_ws s);
          (r, s2) = strip_prefix s1;
          z = takeWhile (radix_digit r) s2
      in if z = [] then None else Some (sign * int (radix_value r z)))"

section \<open>Requests and validation chains\<close>

record request =
  body :: "string \<Rightarrow> jsval"
  params :: "string \<Rightarrow> jsval"

datatype location = Body | Params

text \<open>
  A chain of express-validator: \<^verbatim>\<open>body('name').notEmpty()\<close> is
  \<open>Chain Body ''name'' [NotEmpty]\<close>, \<^verbatim>\<open>body('info').default("")\<close> is
  \<open>Chain Body ''info'' [Default (JStr [])]\<close>, and \<^verbatim>\<open>body('name')\<close> alone is a chain
  with no item.
\<close>

datatype item = NotEmpty | Default jsval

datatype chain = Chain location string "item list"

record validation_error =
  err_type :: string
  err_value :: jsval
  err_msg :: string
  err_path :: string
  err_location :: location

definition select :: "location \<Rightarrow> string \<Rightarrow> request \<Rightarrow> jsval" where
  "select l f req = (case l of Body \<Rightarrow> body req f | Params \<Rightarrow> params req f)"

definition assign :: "location \<Rightarrow> string \<Rightarrow> jsval \<Rightarrow> request \<Rightarrow> request" where
  "assign l f v req = (case l of
       Body \<Rightarrow> req\<lparr>body := (body req)(f := v)\<rparr>
     | Params \<Rightarrow> req\<lparr>params := (params req)(f := v)\<rparr>)"

definition field_error :: "location \<Rightarrow> string \<Rightarrow> jsval \<Rightarrow> validation_error" where
  "field_error l f v =
     \<lparr>err_type = ''field'', err_value = v, err_msg = ''Invalid value'',
      err_path = f, err_location = l\<rparr>"

text \<open>
  The items of a chain run in order on the current value of the field. \<^verbatim>\<open>notEmpty()\<close>
  records an error when \<open>toString\<close> of the value is the empty string; \<^verbatim>\<open>default(d)\<close>
  replaces \<^verbatim>\<open>undefined\<close>, \<^verbatim>\<open>null\<close> and \<^verbatim>\<open>""\<close> by \<open>d\<close>.
\<close>

fun run_items :: "location \<Rightarrow> string \<Rightarrow> item list \<Rightarrow> jsval \<Rightarrow> validation_error list \<times> jsval" where
  "run_items l f [] v = ([], v)"
| "run_items l f (NotEmpty # its) v =
     (let (es, v') = run_items l f its v
      in ((if toString v = [] then [field_error l f v] else []) @ es, v'))"
| "run_items l f (Default d # its) v =
     run_items l f its (if v = JUndefined \<or> v = JNull \<or> v = JStr [] then d else v)"

fun run_chain :: "chain \<Rightarrow> request \<Rightarrow> validation_error list \<times> request" where
  "run_chain (Chain l f its) req =
     (let (es, v) = run_items l f its (select l f req) in (es, assign l f v req))"

text \<open>
  The middleware list of a route runs its chains one after the other;
  \<^verbatim>\<open>validationResult(req).array()\<close> is the list of their errors, and the handler sees the
  request as the sanitizers left it.
\<close>

fun run_chains :: "chain list \<Rightarrow> request \<Rightarrow> validation_error list \<times> request" where
  "run_chains [] req = ([], req)"
| "run_chains (c # cs) req =
     (let (es, req') = run_chain c req; (es', req'') = run_chains cs req'
      in (es @ es', req''))"

section \<open>The store\<close>

text \<open>
  Modelled from the spec: the Prisma schema of the table \<^verbatim>\<open>tasks\<close> is not among the
  sources. By the spec's data model a Task has an integer \<open>id\<close>, unique and assigned by
  the store on creation, a text \<open>name\<close>, a text \<open>info\<close> and a boolean \<open>isDone\<close>. The
  store is the list of rows in the order the table returns them, with the last value
  the id sequence has issued. Ids are mathematical integers: the bounds of the column
  type are not modelled, and neither is the failure to reach the store.
\<close>

record task =
  task_id :: int
  name :: string
  info :: string
  isDone :: bool

record store =
  rows :: "task list"
  seq :: int

text \<open>
  The Prisma client checks every argument against the column's type before it reaches
  the table: \<^verbatim>\<open>undefined\<close> means that the argument is not given, a value of the
  column's type is taken, and anything else (also \<^verbatim>\<open>null\<close>, the columns being
  required) is rejected with a \<^verbatim>\<open>PrismaClientValidationError\<close>.
\<close>

datatype 'a arg = Omitted | Given 'a | Invalid

fun string_arg :: "jsval \<Rightarrow> string arg" where
  "string_arg JUndefined = Omitted"
| "string_arg (JStr s) = Given s"
| "string_arg v = Invalid"

fun bool_arg :: "jsval \<Rightarrow> bool arg" where
  "bool_arg JUndefined = Omitted"
| "bool_arg (JBool b) = Given b"
| "bool_arg v = Invalid"

fun int_arg :: "jsval \<Rightarrow> int arg" where
  "int_arg JUndefined = Omitted"
| "int_arg (JNum k) = Given k"
| "int_arg v = Invalid"

datatype prisma_error = PrismaClientValidationError | RecordNotFound

definition tasks_findMany :: "store \<Rightarrow> task list" where
  "tasks_findMany st = rows st"

text \<open>
  Modelled from the spec: \<^verbatim>\<open>create\<close> needs all three columns (the handler never leaves
  \<open>info\<close> or \<open>isDone\<close> undefined) and the store assigns the next id of its sequence,
  an id not in use before.
\<close>

definition tasks_create :: "store \<Rightarrow> jsval \<Rightarrow> jsval \<Rightarrow> jsval \<Rightarrow> prisma_error + task \<times> store" where
  "tasks_create st n i d = (case (string_arg n, string_arg i, bool_arg d) of
       (Given n', Given i', Given d') \<Rightarrow>
         (let t = \<lparr>task_id = seq st + 1, name = n', info = i', isDone = d'\<rparr>
          in Inr (t, \<lparr>rows = rows st @ [t], seq = seq st + 1\<rparr>))
     | _ \<Rightarrow> Inl PrismaClientValidationError)"

text \<open>In \<^verbatim>\<open>data\<close> of an update, a column that is not given keeps its value.\<close>

fun patch :: "string arg \<Rightarrow> string arg \<Rightarrow> bool arg \<Rightarrow> task \<Rightarrow> task" where
  "patch n i d t =
     t\<lparr>name := (case n of Given n' \<Rightarrow> n' | _ \<Rightarrow> name t),
       info := (case i of Given i' \<Rightarrow> i' | _ \<Rightarrow> info t),
       isDone := (case d of Given d' \<Rightarrow> d' | _ \<Rightarrow> isDone t)\<rparr>"

definition tasks_update :: "store \<Rightarrow> jsval \<Rightarrow> jsval \<Rightarrow> jsval \<Rightarrow> jsval \<Rightarrow> prisma_error + task \<times> store" where
  "tasks_update st w n i d =
     (case int_arg w of
        Given k \<Rightarrow>
          if string_arg n = Invalid \<or> string_arg i = Invalid \<or> bool_arg d = Invalid
          then Inl PrismaClientValidationError
          else (case find (\<lambda>t. task_id t = k) (rows st) of
                  None \<Rightarrow> Inl RecordNotFound
                | Some t \<Rightarrow>
                    Inr (patch (string_arg n) (string_arg i) (bool_arg d) t,
                         st\<lparr>rows := map (\<lambda>r. if task_id r = k
                                               then patch (string_arg n) (string_arg i) (bool_arg d) r
                                               else r) (rows st)\<rparr>))
      | _ \<Rightarrow> Inl PrismaClientValidationError)"

text \<open>\<^verbatim>\<open>delete\<close> takes the number \<^verbatim>\<open>parseInt\<close> returned; \<^verbatim>\<open>NaN\<close> is no integer.\<close>

definition tasks_delete :: "store \<Rightarrow> int option \<Rightarrow> prisma_error + task \<times> store" where
  "tasks_delete st w =
     (case w of
        None \<Rightarrow> Inl PrismaClientValidationError
      | Some k \<Rightarrow>
          (case find (\<lambda>t. task_id t = k) (rows st) of
             None \<Rightarrow> Inl RecordNotFound
           | Some t \<Rightarrow> Inr (t, st\<lparr>rows := filter (\<lambda>r. task_id r \<noteq> k) (rows st)\<rparr>)))"

section \<open>The handlers\<close>

datatype payload =
    TaskList "task list"
  | TaskJson task
  | ErrorsJson "validation_error list"
  | ErrorJson prisma_error

record response =
  status :: nat
  payload :: payload

text \<open>
  \<^verbatim>\<open>.then((result) => res.json(result)).catch((err) => res.status(500).json(err))\<close>:
  the tail shared by the create, update and delete handlers. A response whose status
  is not set has status 200. A failed store call leaves the table as it was.
\<close>

definition settle :: "store \<Rightarrow> prisma_error + task \<times> store \<Rightarrow> response \<times> store" where
  "settle st r = (case r of
       Inr (t, st') \<Rightarrow> (\<lparr>status = 200, payload = TaskJson t\<rparr>, st')
     | Inl err \<Rightarrow> (\<lparr>status = 500, payload = ErrorJson err\<rparr>, st))"

text \<open>\<^verbatim>\<open>GET /read\<close> (lines 65 to 68): no chain, one \<^verbatim>\<open>findMany({})\<close>.\<close>

definition read_handler :: "store \<Rightarrow> request \<Rightarrow> response \<times> store" where
  "read_handler st req = (\<lparr>status = 200, payload = TaskList (tasks_findMany st)\<rparr>, st)"

text \<open>
  \<^verbatim>\<open>POST /create\<close> (lines 117 to 140): a non-empty validation result is answered with
  status 404 before any store call; otherwise the sanitized body goes to \<^verbatim>\<open>create\<close>.
  (\<^verbatim>\<open>console.log(result)\<close> has no part in the response.)
\<close>

definition create_chains :: "chain list" where
  "create_chains =
     [Chain Body ''name'' [NotEmpty],
      Chain Body ''info'' [Default (JStr [])],
      Chain Body ''isDone'' [Default (JBool False)]]"

definition create_handler :: "store \<Rightarrow> request \<Rightarrow> response \<times> store" where
  "create_handler st req0 =
     (let (result, req) = run_chains create_chains req0
      in if result \<noteq> [] then (\<lparr>status = 404, payload = ErrorsJson result\<rparr>, st)
         else settle st (tasks_create st (body req ''name'') (body req ''info'') (body req ''isDone'')))"

text \<open>
  \<^verbatim>\<open>POST /update\<close> (lines 192 to 213): three chains without items; a non-empty
  validation result would be sent with the default status.
\<close>

definition update_chains :: "chain list" where
  "update_chains = [Chain Body ''name'' [], Chain Body ''info'' [], Chain Body ''isDone'' []]"

definition update_handler :: "store \<Rightarrow> request \<Rightarrow> response \<times> store" where
  "update_handler st req0 =
     (let (result, req) = run_chains update_chains req0
      in if result \<noteq> [] then (\<lparr>status = 200, payload = ErrorsJson result\<rparr>, st)
         else settle st (tasks_update st (body req ''id'') (body req ''name'')
                           (body req ''info'') (body req ''isDone'')))"

text \<open>
  \<^verbatim>\<open>GET /delete/:id\<close> (lines 253 to 269): the path parameter must not be empty, and
  \<^verbatim>\<open>parseInt(req.params.id)\<close> selects the row.
\<close>

definition delete_chains :: "chain list" where
  "delete_chains = [Chain Params ''id'' [NotEmpty]]"

definition delete_handler :: "store \<Rightarrow> request \<Rightarrow> response \<times> store" where
  "delete_handler st req0 =
     (let (result, req) = run_chains delete_chains req0
      in if result \<noteq> [] then (\<lparr>status = 200, payload = ErrorsJson result\<rparr>, st)
         else settle st (tasks_delete st (parseInt (js_String (params req ''id'')))))"

text \<open>
  The router: each request is one operation, and a handler makes one store call. A
  run of requests threads the store through the handlers.
\<close>

datatype operation = Read request | Create request | Update request | Delete request

fun step :: "store \<Rightarrow> operation \<Rightarrow> response \<times> store" where
  "step st (Read req) = read_handler st req"
| "step st (Create req) = create_handler st req"
| "step st (Update req) = update_handler st req"
| "step st (Delete req) = delete_handler st req"

fun run :: "store \<Rightarrow> operation list \<Rightarrow> store" where
  "run st [] = st"
| "run st (op # ops) = run (snd (step st op)) ops"

text \<open>A request with the given body properties, and the request of \<^verbatim>\<open>GET /delete/:id\<close>.\<close>

definition no_props :: "string \<Rightarrow> jsval" where
  "no_props = (\<lambda>_. JUndefined)"

definition body_request :: "(string \<Rightarrow> jsval) \<Rightarrow> request" where
  "body_request b = \<lparr>body = b, params = no_props\<rparr>"

definition delete_request :: "string \<Rightarrow> request" where
  "delete_request s = \<lparr>body = no_props, params = no_props(''id'' := JStr s)\<rparr>"

text \<open>
  A request that asks to delete the Task \<open>k\<close>: a \<^verbatim>\<open>GET /delete/:id\<close> whose path \<open>id\<close>
  parses to \<open>k\<close>.
\<close>

fun deletes :: "int \<Rightarrow> operation \<Rightarrow> bool" where
  "deletes k (Delete req) = (parseInt (js_String (params req ''id'')) = Some k)"
| "deletes k op = False"

text \<open>The table before any request.\<close>

definition empty_store :: store where
  "empty_store = \<lparr>rows = [], seq = 0\<rparr>"

text \<open>
  The invariant of the table: ids are pairwise distinct and none is beyond the
  sequence.
\<close>

definition store_inv :: "store \<Rightarrow> bool" where
  "store_inv st = (distinct (map task_id (rows st)) \<and> list_all (\<lambda>t. task_id t \<le> seq st) (rows st))"

section \<open>Facts about validation and the store\<close>

lemma show_nat_nonempty: "show_nat n \<noteq> []"
  by (subst show_nat.simps) simp

lemma show_int_nonempty: "show_int k \<noteq> []"
  by (simp add: show_int_def show_nat_nonempty)

lemma toString_empty_iff: "toString v = [] \<longleftrightarrow> v = JUndefined \<or> v = JNull \<or> v = JStr []"
  by (cases v) (auto simp: show_int_nonempty)

lemma assign_same: "assign l f (select l f req) req = req"
  by (cases l) (simp_all add: assign_def select_def)

lemma run_update_chains: "run_chains update_chains req = ([], req)"
  by (simp add: update_chains_def assign_same)

lemma run_create_chains:
  "run_chains create_chains req =
     ((if toString (body req ''name'') = [] then [field_error Body ''name'' (body req ''name'')] else []),
      req\<lparr>body := (body req)
         (''info'' := (if body req ''info'' = JUndefined \<or> body req ''info'' = JNull \<or> body req ''info'' = JStr []
                       then JStr [] else body req ''info''),
          ''isDone'' := (if body req ''isDone'' = JUndefined \<or> body req ''isDone'' = JNull \<or> body req ''isDone'' = JStr []
                       then JBool False else body req ''isDone''))\<rparr>)"
  by (simp add: create_chains_def assign_def select_def)

lemma run_delete_chains:
  "run_chains delete_chains req =
     ((if toString (params req ''id'') = [] then [field_error Params ''id'' (params req ''id'')] else []), req)"
  by (simp add: delete_chains_def assign_same) (simp add: select_def)

lemma radix_digit_10: "radix_digit 10 c = is_digit c"
  by (simp add: radix_digit_def digit_value_def is_digit_def)

lemma update_handler_eq:
  "update_handler st req =
     settle st (tasks_update st (body req ''id'') (body req ''name'') (body req ''info'') (body req ''isDone''))"
  by (simp add: update_handler_def run_update_chains)

lemma delete_handler_eq:
  "params req ''id'' = JStr s \<Longrightarrow> s \<noteq> [] \<Longrightarrow>
     delete_handler st req = settle st (tasks_delete st (parseInt s))"
  by (simp add: delete_handler_def run_delete_chains)

lemma create_handler_eq:
  "toString (body req ''name'') \<noteq> [] \<Longrightarrow>
   create_handler st req =
     settle st (tasks_create st (body req ''name'')
       (if body req ''info'' = JUndefined \<or> body req ''info'' = JNull \<or> body req ''info'' = JStr []
        then JStr [] else body req ''info'')
       (if body req ''isDone'' = JUndefined \<or> body req ''isDone'' = JNull \<or> body req ''isDone'' = JStr []
        then JBool False else body req ''isDone''))"
  by (simp add: create_handler_def run_create_chains)

lemma settle_payload: "payload (fst (settle st r)) \<noteq> ErrorsJson errs"
  by (auto simp: settle_def split: sum.splits)

lemma find_id_Some:
  "find (\<lambda>t. task_id t = k) xs = Some t \<Longrightarrow> t \<in> set xs \<and> task_id t = k"
  by (induction xs) (auto split: if_splits)

lemma find_id_None:
  "find (\<lambda>t. task_id t = k) xs = None \<longleftrightarrow> k \<notin> task_id ` set xs"
  by (induction xs) auto

lemma find_id_distinct:
  "distinct (map task_id xs) \<Longrightarrow> t \<in> set xs \<Longrightarrow> find (\<lambda>r. task_id r = task_id t) xs = Some t"
  by (induction xs) (auto simp: image_iff)

lemma patch_id: "task_id (patch n i d t) = task_id t"
  by simp

lemma map_patch_ids:
  "map task_id (map (\<lambda>r. if task_id r = k then patch n i d r else r) xs) = map task_id xs"
  by (induction xs) auto

lemma tasks_update_ids:
  "tasks_update st w n i d = Inr (t, st') \<Longrightarrow>
     map task_id (rows st') = map task_id (rows st) \<and> seq st' = seq st"
  by (auto simp: tasks_update_def map_patch_ids patch_id simp del: patch.simps
           split: arg.splits if_splits option.splits)

lemma tasks_delete_ids:
  "tasks_delete st w = Inr (t, st') \<Longrightarrow>
     (\<exists>k. map task_id (rows st') = filter (\<lambda>j. j \<noteq> k) (map task_id (rows st))) \<and> seq st' = seq st"
  by (auto simp: tasks_delete_def filter_map comp_def split: option.splits)

lemma tasks_create_ids:
  "tasks_create st n i d = Inr (t, st') \<Longrightarrow>
     task_id t = seq st + 1 \<and> rows st' = rows st @ [t] \<and> seq st' = seq st + 1"
  by (auto simp: tasks_create_def Let_def split: arg.splits)

lemma settle_cases:
  "settle st r = (res, st') \<Longrightarrow>
     (\<exists>e. r = Inl e \<and> st' = st \<and> res = \<lparr>status = 500, payload = ErrorJson e\<rparr>) \<or>
     (\<exists>t. r = Inr (t, st') \<and> res = \<lparr>status = 200, payload = TaskJson t\<rparr>)"
  by (auto simp: settle_def split: sum.splits)

lemma create_handler_cases:
  "create_handler st req = (res, st') \<Longrightarrow>
     st' = st \<or> (\<exists>t. task_id t = seq st + 1 \<and> rows st' = rows st @ [t] \<and> seq st' = seq st + 1
                    \<and> res = \<lparr>status = 200, payload = TaskJson t\<rparr>)"
  by (auto simp: create_handler_def run_create_chains Let_def toString_empty_iff
           split: if_splits dest!: settle_cases tasks_create_ids)

lemma update_handler_cases:
  "update_handler st req = (res, st') \<Longrightarrow>
     map task_id (rows st') = map task_id (rows st) \<and> seq st' = seq st"
  by (auto simp: update_handler_eq dest!: settle_cases tasks_update_ids)

lemma delete_handler_cases:
  "delete_handler st req = (res, st') \<Longrightarrow>
     (st' = st \<or> (\<exists>k. map task_id (rows st') = filter (\<lambda>j. j \<noteq> k) (map task_id (rows st)))) \<and> seq st' = seq st"
  by (auto simp: delete_handler_def run_delete_chains Let_def
           split: if_splits dest!: settle_cases tasks_delete_ids)

lemma store_inv_alt:
  "store_inv st \<longleftrightarrow>
     distinct (map task_id (rows st)) \<and> (\<forall>j \<in> set (map task_id (rows st)). j \<le> seq st)"
  by (auto simp: store_inv_def list_all_iff)

lemma step_inv: "store_inv st \<Longrightarrow> store_inv (snd (step st op))"
proof (cases op)
  case (Read req)
  assume "store_inv st"
  then show ?thesis using Read by (simp add: read_handler_def)
next
  case (Create req)
  assume inv: "store_inv st"
  obtain res st' where h: "create_handler st req = (res, st')" by (cases "create_handler st req")
  from create_handler_cases[OF h] inv show ?thesis
    using Create h by (fastforce simp: store_inv_def list_all_iff)
next
  case (Update req)
  assume inv: "store_inv st"
  obtain res st' where h: "update_handler st req = (res, st')" by (cases "update_handler st req")
  from update_handler_cases[OF h] inv have "store_inv st'"
    unfolding store_inv_alt by simp
  then show ?thesis using Update h by simp
next
  case (Delete req)
  assume inv: "store_inv st"
  obtain res st' where h: "delete_handler st req = (res, st')" by (cases "delete_handler st req")
  from delete_handler_cases[OF h] inv have "store_inv st'"
    unfolding store_inv_alt by (auto simp del: set_map)
  then show ?thesis using Delete h by simp
qed

lemma run_inv: "store_inv st \<Longrightarrow> store_inv (run st ops)"
  by (induction ops arbitrary: st) (auto simp: step_inv)

lemma same_id_same_row:
  "distinct (map task_id xs) \<Longrightarrow> t \<in> set xs \<Longrightarrow> r \<in> set xs \<Longrightarrow> task_id r = task_id t \<Longrightarrow> r = t"
  by (auto simp: distinct_map inj_on_def)

lemma map_patch_one:
  assumes "distinct (map task_id xs)" and "t \<in> set xs"
  shows "map (\<lambda>r. if task_id r = task_id t then f r else r) xs =
     map (\<lambda>r. if task_id r = task_id t then f t else r) xs"
proof (rule map_cong)
  fix r assume "r \<in> set xs"
  then show "(if task_id r = task_id t then f r else r) = (if task_id r = task_id t then f t else r)"
    using same_id_same_row [OF assms, of r] by auto
qed simp

lemma tasks_update_existing:
  assumes "distinct (map task_id (rows st))" and "t \<in> set (rows st)"
    and "string_arg n \<noteq> Invalid" and "string_arg i \<noteq> Invalid" and "bool_arg d \<noteq> Invalid"
  shows "tasks_update st (JNum (task_id t)) n i d =
     Inr (patch (string_arg n) (string_arg i) (bool_arg d) t,
          st\<lparr>rows := map (\<lambda>r. if task_id r = task_id t
                               then patch (string_arg n) (string_arg i) (bool_arg d) t else r) (rows st)\<rparr>)"
proof -
  have "tasks_update st (JNum (task_id t)) n i d =
     Inr (patch (string_arg n) (string_arg i) (bool_arg d) t,
          st\<lparr>rows := map (\<lambda>r. if task_id r = task_id t
                               then patch (string_arg n) (string_arg i) (bool_arg d) r else r) (rows st)\<rparr>)"
    using assms by (simp add: tasks_update_def find_id_distinct del: patch.simps)
  also have "map (\<lambda>r. if task_id r = task_id t
                               then patch (string_arg n) (string_arg i) (bool_arg d) r else r) (rows st)
     = map (\<lambda>r. if task_id r = task_id t
                               then patch (string_arg n) (string_arg i) (bool_arg d) t else r) (rows st)"
    by (rule map_patch_one [OF assms(1,2)])
  finally show ?thesis .
qed

lemma create_handler_created:
  "create_handler st req = (\<lparr>status = 200, payload = TaskJson t\<rparr>, st') \<Longrightarrow>
     task_id t = seq st + 1 \<and> rows st' = rows st @ [t] \<and> seq st' = seq st + 1"
  by (auto simp: create_handler_def run_create_chains Let_def toString_empty_iff
           split: if_splits dest!: settle_cases tasks_create_ids)

lemma step_retired:
  assumes "k \<le> seq st" and "k \<notin> set (map task_id (rows st))"
  shows "k \<le> seq (snd (step st op)) \<and> k \<notin> set (map task_id (rows (snd (step st op))))"
proof (cases op)
  case (Read req)
  then show ?thesis using assms by (simp add: read_handler_def)
next
  case (Create req)
  obtain res st' where h: "create_handler st req = (res, st')" by (cases "create_handler st req")
  from create_handler_cases [OF h] assms show ?thesis
    using Create h by auto
next
  case (Update req)
  obtain res st' where h: "update_handler st req = (res, st')" by (cases "update_handler st req")
  from update_handler_cases [OF h] assms show ?thesis
    using Update h by (simp del: set_map)
next
  case (Delete req)
  obtain res st' where h: "delete_handler st req = (res, st')" by (cases "delete_handler st req")
  from delete_handler_cases [OF h] assms show ?thesis
    using Delete h by (auto simp del: set_map)
qed

lemma run_retired:
  "k \<le> seq st \<Longrightarrow> k \<notin> set (map task_id (rows st)) \<Longrightarrow>
     k \<notin> set (map task_id (rows (run st ops)))"
proof (induction ops arbitrary: st)
  case Nil
  then show ?case by simp
next
  case (Cons op ops)
  from step_retired [OF Cons.prems, of op] show ?case
    by (simp add: Cons.IH del: set_map)
qed

lemma tasks_delete_existing:
  assumes "distinct (map task_id (rows st))" and "t \<in> set (rows st)"
  shows "tasks_delete st (Some (task_id t)) =
     Inr (t, st\<lparr>rows := filter (\<lambda>r. task_id r \<noteq> task_id t) (rows st)\<rparr>)"
  using assms by (simp add: tasks_delete_def find_id_distinct)

lemma tasks_update_unknown:
  assumes "\<not> (\<exists>t \<in> set (rows st). w = JNum (task_id t))"
  shows "\<exists>err. tasks_update st w n i d = Inl err"
proof (cases "int_arg w")
  case (Given k)
  then have w: "w = JNum k" by (cases w) auto
  with assms have "find (\<lambda>t. task_id t = k) (rows st) = None"
    by (auto simp: find_id_None)
  with Given show ?thesis by (simp add: tasks_update_def)
qed (simp_all add: tasks_update_def)

lemma tasks_delete_unknown:
  assumes "\<not> (\<exists>t \<in> set (rows st). w = Some (task_id t))"
  shows "\<exists>err. tasks_delete st w = Inl err"
proof (cases w)
  case None
  then show ?thesis by (simp add: tasks_delete_def)
next
  case (Some k)
  with assms have "find (\<lambda>t. task_id t = k) (rows st) = None"
    by (auto simp: find_id_None)
  with Some show ?thesis by (simp add: tasks_delete_def)
qed

lemma count_id_distinct:
  "distinct (map task_id xs) \<Longrightarrow> length (filter (\<lambda>r. task_id r = k) xs) \<le> 1"
  by (induction xs) (auto simp: filter_empty_conv image_iff)

lemma filter_fresh_id:
  "\<forall>r \<in> set xs. task_id r \<noteq> task_id t \<Longrightarrow> filter (\<lambda>r. task_id r = task_id t) (xs @ [t]) = [t]"
  by (simp add: filter_empty_conv)

lemma delete_handler_rows:
  "delete_handler st req = (res, st') \<Longrightarrow>
     st' = st \<or>
     (\<exists>k. parseInt (js_String (params req ''id'')) = Some k \<and>
          rows st' = filter (\<lambda>r. task_id r \<noteq> k) (rows st))"
  by (auto simp: delete_handler_def run_delete_chains settle_def tasks_delete_def
           split: if_splits option.splits)

lemma step_keeps:
  assumes "k \<in> set (map task_id (rows st))" and "\<not> deletes k op"
  shows "k \<in> set (map task_id (rows (snd (step st op))))"
proof (cases op)
  case (Read req)
  then show ?thesis using assms by (simp add: read_handler_def)
next
  case (Create req)
  obtain res st' where h: "create_handler st req = (res, st')" by (cases "create_handler st req")
  from create_handler_cases [OF h] assms show ?thesis
    using Create h by auto
next
  case (Update req)
  obtain res st' where h: "update_handler st req = (res, st')" by (cases "update_handler st req")
  from update_handler_cases [OF h] assms show ?thesis
    using Update h by (simp del: set_map)
next
  case (Delete req)
  obtain res st' where h: "delete_handler st req = (res, st')" by (cases "delete_handler st req")
  from delete_handler_rows [OF h] assms show ?thesis
    using Delete h by auto
qed

lemma run_keeps:
  "k \<in> set (map task_id (rows st)) \<Longrightarrow> \<forall>op \<in> set ops. \<not> deletes k op \<Longrightarrow>
     k \<in> set (map task_id (rows (run st ops)))"
proof (induction ops arbitrary: st)
  case Nil
  then show ?case by simp
next
  case (Cons op ops)
  from Cons.prems have "k \<in> set (map task_id (rows (snd (step st op))))"
    by (intro step_keeps) simp_all
  then show ?case using Cons.prems by (simp add: Cons.IH del: set_map)
qed

lemma count_id_present:
  "distinct (map task_id xs) \<Longrightarrow> k \<in> set (map task_id xs) \<Longrightarrow>
     length (filter (\<lambda>r. task_id r = k) xs) = 1"
  by (induction xs) (auto simp: filter_empty_conv image_iff)

text \<open>What \<open>parseInt\<close> reads.\<close>

lemma parseInt_Nil: "parseInt [] = None"
  by (simp add: parseInt_def strip_sign_def strip_prefix_def)

lemma is_digit_not_ws: "is_digit c \<Longrightarrow> \<not> is_ws c"
  by (auto simp: is_digit_def is_ws_def)

lemma is_digit_not_sign: "is_digit c \<Longrightarrow> c \<noteq> CHR ''-'' \<and> c \<noteq> CHR ''+''"
  by (auto simp: is_digit_def)

lemma takeWhile_run:
  "\<forall>c \<in> set ds. P c \<Longrightarrow> rest = [] \<or> \<not> P (hd rest) \<Longrightarrow> takeWhile P (ds @ rest) = ds"
  by (cases rest) (simp_all add: takeWhile_append2)

lemma parseInt_decimal_run:
  assumes "s = ds @ rest" and "ds \<noteq> []" and "\<forall>c \<in> set ds. is_digit c"
    and "rest = [] \<or> \<not> is_digit (hd rest)"
    and "take 2 s \<noteq> ''0x''" and "take 2 s \<noteq> ''0X''"
  shows "parseInt s = Some (int (radix_value 10 ds))"
proof -
  obtain c cs where ds: "ds = c # cs" using assms(2) by (cases ds) auto
  then have c: "is_digit c" using assms(3) by simp
  have ws: "dropWhile is_ws s = s"
    using ds assms(1) is_digit_not_ws [OF c] by simp
  have sg: "strip_sign s = (1, s)"
    using ds assms(1) is_digit_not_sign [OF c] by (simp add: strip_sign_def)
  have px: "strip_prefix s = (10, s)"
    using assms(5,6) by (simp add: strip_prefix_def)
  have "takeWhile (radix_digit 10) (ds @ rest) = ds"
    using assms(3,4) by (intro takeWhile_run) (simp_all add: radix_digit_10)
  then have tw: "takeWhile (radix_digit 10) s = ds"
    using assms(1) by simp
  show ?thesis
    using assms(2) by (simp add: parseInt_def ws sg px tw)
qed

lemma strip_sign_subset: "set (snd (strip_sign s)) \<subseteq> set s"
  by (cases s) (auto simp: strip_sign_def)

lemma parseInt_no_digit:
  assumes "\<forall>c \<in> set s. \<not> is_digit c"
  shows "parseInt s = None"
proof -
  obtain sg s1 where sg: "strip_sign (dropWhile is_ws s) = (sg, s1)"
    by (cases "strip_sign (dropWhile is_ws s)")
  have sub0: "set (dropWhile is_ws s) \<subseteq> set s"
    by (auto dest: set_dropWhileD)
  have "set s1 \<subseteq> set (dropWhile is_ws s)"
    using strip_sign_subset [of "dropWhile is_ws s"] sg by simp
  with sub0 assms have nd: "\<forall>c \<in> set s1. \<not> is_digit c" by blast
  have "CHR ''0'' \<notin> set s1" using nd by (auto simp: is_digit_def)
  then have "take 2 s1 \<noteq> ''0x''" "take 2 s1 \<noteq> ''0X''"
    by (metis in_set_takeD list.set_intros(1))+
  then have px: "strip_prefix s1 = (10, s1)" by (simp add: strip_prefix_def)
  have "takeWhile (radix_digit 10) s1 = []"
    using nd by (cases s1) (simp_all add: radix_digit_10)
  then show ?thesis by (simp add: parseInt_def sg px)
qed

lemma parseInt_hex:
  assumes "take 2 s = ''0x'' \<or> take 2 s = ''0X''"
  shows "parseInt s =
     (let z = takeWhile (radix_digit 16) (drop 2 s)
      in if z = [] then None else Some (int (radix_value 16 z)))"
proof -
  obtain c cs where s: "s = c # cs" and c: "c = CHR ''0''"
    using assms by (cases s) auto
  have ws: "dropWhile is_ws s = s" using s c by (simp add: is_ws_def)
  have sg: "strip_sign s = (1, s)" using s c by (simp add: strip_sign_def)
  have px: "strip_prefix s = (16, drop 2 s)" using assms by (simp add: strip_prefix_def)
  show ?thesis by (simp add: parseInt_def ws sg px Let_def)
qed

text \<open>
  The scenario of the specification: create \<open>Buy milk\<close>, update it, delete it. The
  table is empty again and the sequence stays at 1.
\<close>

lemma scenario:
  "run empty_store
     [Create (body_request (no_props(''name'' := JStr ''Buy milk''))),
      Read (body_request no_props),
      Update (body_request (no_props(''id'' := JNum 1, ''name'' := JStr ''Buy milk'',
        ''info'' := JStr ''2%'', ''isDone'' := JBool True))),
      Delete (delete_request ''1''),
      Read (body_request no_props)] = \<lparr>rows = [], seq = 1\<rparr>"
  by (simp add: empty_store_def create_handler_def create_chains_def read_handler_def
      update_handler_eq delete_handler_def delete_chains_def assign_def select_def
      body_request_def delete_request_def no_props_def settle_def tasks_create_def
      tasks_update_def tasks_delete_def Let_def parseInt_def strip_sign_def strip_prefix_def
      is_ws_def radix_digit_def digit_value_def radix_value_def)

section \<open>The create handler\<close>

text \<open>
  A create request whose \<open>name\<close> is a non-empty string but whose \<open>info\<close> is a number
  passes validation and is refused by the store: the response is a 500 and no Task is
  inserted.
\<close>

theorem create_wrong_type_counterexample:
  "create_handler empty_store
     (body_request (no_props(''name'' := JStr ''Buy milk'', ''info'' := JNum 5))) =
     (\<lparr>status = 500, payload = ErrorJson PrismaClientValidationError\<rparr>, empty_store)"
  by (simp add: create_handler_def create_chains_def assign_def select_def body_request_def
      no_props_def settle_def tasks_create_def)

text \<open>
  Claim C1, amended. For every create request whose \<open>name\<close> is a non-empty string, whose
  \<open>info\<close> is omitted or a string and whose \<open>isDone\<close> is omitted or a boolean, the handler
  inserts one new Task at the end of the table and responds 200 with that Task: its
  \<open>id\<close> is the next value of the store's sequence, its \<open>name\<close>, \<open>info\<close> and \<open>isDone\<close> are
  the request's values, with \<open>info\<close> the empty string and \<open>isDone\<close> false when omitted.
\<close>

theorem create_valid_payload:
  assumes "body req ''name'' = JStr n" and "n \<noteq> []"
    and "body req ''info'' = JUndefined \<or> body req ''info'' = JStr i"
    and "body req ''isDone'' = JUndefined \<or> body req ''isDone'' = JBool d"
  shows "let t = \<lparr>task_id = seq st + 1, name = n,
                  info = (if body req ''info'' = JUndefined then [] else i),
                  isDone = (if body req ''isDone'' = JUndefined then False else d)\<rparr>
         in create_handler st req =
              (\<lparr>status = 200, payload = TaskJson t\<rparr>, \<lparr>rows = rows st @ [t], seq = seq st + 1\<rparr>)"
  using assms by (auto simp: create_handler_eq settle_def tasks_create_def Let_def)

theorem create_valid_payload_witness:
  "body (body_request (no_props(''name'' := JStr ''Buy milk''))) ''name'' = JStr ''Buy milk'' \<and>
   ''Buy milk'' \<noteq> [] \<and>
   body (body_request (no_props(''name'' := JStr ''Buy milk''))) ''info'' = JUndefined \<and>
   body (body_request (no_props(''name'' := JStr ''Buy milk''))) ''isDone'' = JUndefined \<and>
   create_handler empty_store (body_request (no_props(''name'' := JStr ''Buy milk''))) =
     (\<lparr>status = 200,
       payload = TaskJson \<lparr>task_id = 1, name = ''Buy milk'', info = [], isDone = False\<rparr>\<rparr>,
      \<lparr>rows = [\<lparr>task_id = 1, name = ''Buy milk'', info = [], isDone = False\<rparr>], seq = 1\<rparr>)"
  using create_valid_payload [of "body_request (no_props(''name'' := JStr ''Buy milk''))"
      "''Buy milk''" "[]" False empty_store]
  by (simp add: body_request_def no_props_def empty_store_def Let_def)

text \<open>
  Claim C4. For every create request whose \<open>name\<close> is missing, \<^verbatim>\<open>null\<close> or the empty
  string, the store is unchanged and the response has status 404 and carries the list
  of validation failures, which holds the one failure of the field \<open>name\<close>.
\<close>

theorem create_empty_name:
  assumes "body req ''name'' = JUndefined \<or> body req ''name'' = JNull \<or> body req ''name'' = JStr []"
  shows "create_handler st req =
     (\<lparr>status = 404, payload = ErrorsJson [field_error Body ''name'' (body req ''name'')]\<rparr>, st)"
  using assms by (auto simp: create_handler_def run_create_chains)

theorem create_empty_name_witness:
  "body (body_request no_props) ''name'' = JUndefined \<and>
   create_handler empty_store (body_request no_props) =
     (\<lparr>status = 404, payload = ErrorsJson [field_error Body ''name'' JUndefined]\<rparr>, empty_store)"
  using create_empty_name [of "body_request no_props" empty_store]
  by (simp add: body_request_def no_props_def)

section \<open>The list handler\<close>

text \<open>
  Claim C6. For every list request, whatever it carries, the handler runs no
  validation, leaves the store as it is and responds with status 200 and the array of
  all Tasks of the table, in the table's order (the empty array for an empty table).
\<close>

theorem list_all_tasks:
  "read_handler st req = (\<lparr>status = 200, payload = TaskList (rows st)\<rparr>, st)"
  by (simp add: read_handler_def tasks_findMany_def)

section \<open>The update handler\<close>

text \<open>
  An update request with an empty body: \<open>name\<close> is absent, and the validation result is
  empty all the same.
\<close>

theorem update_validation_absent_counterexample:
  "body (body_request no_props) ''name'' = JUndefined \<and>
   fst (run_chains update_chains (body_request no_props)) = []"
  by (simp add: body_request_def no_props_def update_chains_def assign_def select_def)

text \<open>
  Claim C8, amended. The validation step of the update handler declares \<open>name\<close>, \<open>info\<close>
  and \<open>isDone\<close> with no rule: it validates neither type nor presence, no request fails
  it, present or absent fields alike, and it leaves the request as it was.
\<close>

theorem update_validation_no_rule:
  "run_chains update_chains req = ([], req)"
  by (rule run_update_chains)

text \<open>
  Claim C9. For every update request the validation result is empty, so the handler
  always issues the store update with the \<open>id\<close>, \<open>name\<close>, \<open>info\<close> and \<open>isDone\<close> of the
  body, and its response is never the list of validation failures.
\<close>

theorem update_validation_unreachable:
  "fst (run_chains update_chains req) = [] \<and>
   update_handler st req =
     settle st (tasks_update st (body req ''id'') (body req ''name'') (body req ''info'')
                  (body req ''isDone'')) \<and>
   payload (fst (update_handler st req)) \<noteq> ErrorsJson errs"
  by (simp add: run_update_chains update_handler_eq settle_payload)

text \<open>
  An update request whose \<open>id\<close> matches an existing Task and whose \<open>name\<close> is a number:
  the response is a 500 and the Task keeps its values.
\<close>

theorem update_wrong_type_counterexample:
  "update_handler
     \<lparr>rows = [\<lparr>task_id = 1, name = ''Buy milk'', info = ''2%'', isDone = False\<rparr>], seq = 1\<rparr>
     (body_request (no_props(''id'' := JNum 1, ''name'' := JNum 7, ''info'' := JStr ''1%'',
        ''isDone'' := JBool True))) =
     (\<lparr>status = 500, payload = ErrorJson PrismaClientValidationError\<rparr>,
      \<lparr>rows = [\<lparr>task_id = 1, name = ''Buy milk'', info = ''2%'', isDone = False\<rparr>], seq = 1\<rparr>)"
  by (simp add: update_handler_eq body_request_def no_props_def settle_def tasks_update_def)

text \<open>
  Claim C2, amended. For every update request whose \<open>id\<close> is the number of an existing
  Task and whose \<open>name\<close>, \<open>info\<close> and \<open>isDone\<close> are each omitted or of the column's type
  (string, string, boolean), the handler overwrites every supplied field of that Task
  with the payload's value, leaves an omitted field as it was, and responds 200 with
  the updated Task; a list request after it returns the updated Task and no other Task
  of that \<open>id\<close>.
\<close>

theorem update_existing_task:
  assumes "store_inv st" and "t \<in> set (rows st)"
    and "body req ''id'' = JNum (task_id t)"
    and "body req ''name'' = JUndefined \<or> body req ''name'' = JStr n"
    and "body req ''info'' = JUndefined \<or> body req ''info'' = JStr i"
    and "body req ''isDone'' = JUndefined \<or> body req ''isDone'' = JBool d"
  shows "let t' = \<lparr>task_id = task_id t,
                   name = (if body req ''name'' = JUndefined then name t else n),
                   info = (if body req ''info'' = JUndefined then info t else i),
                   isDone = (if body req ''isDone'' = JUndefined then isDone t else d)\<rparr>;
             st' = st\<lparr>rows := map (\<lambda>r. if task_id r = task_id t then t' else r) (rows st)\<rparr>
         in update_handler st req = (\<lparr>status = 200, payload = TaskJson t'\<rparr>, st') \<and>
            read_handler st' req' = (\<lparr>status = 200, payload = TaskList (rows st')\<rparr>, st') \<and>
            t' \<in> set (rows st') \<and>
            (\<forall>r \<in> set (rows st'). task_id r = task_id t \<longrightarrow> r = t')"
proof -
  have dist: "distinct (map task_id (rows st))"
    using assms(1) by (simp add: store_inv_def)
  have valid: "string_arg (body req ''name'') \<noteq> Invalid"
    "string_arg (body req ''info'') \<noteq> Invalid"
    "bool_arg (body req ''isDone'') \<noteq> Invalid"
    using assms(4-6) by auto
  have patched:
    "patch (string_arg (body req ''name'')) (string_arg (body req ''info''))
       (bool_arg (body req ''isDone'')) t =
     \<lparr>task_id = task_id t,
      name = (if body req ''name'' = JUndefined then name t else n),
      info = (if body req ''info'' = JUndefined then info t else i),
      isDone = (if body req ''isDone'' = JUndefined then isDone t else d)\<rparr>"
    using assms(4-6) by auto
  show ?thesis
    using assms(2)
    by (simp only: Let_def update_handler_eq assms(3)
          tasks_update_existing [OF dist assms(2) valid] patched)
       (auto simp: settle_def read_handler_def tasks_findMany_def)
qed

theorem update_existing_task_witness:
  "store_inv \<lparr>rows = [\<lparr>task_id = 1, name = ''Buy milk'', info = [], isDone = False\<rparr>], seq = 1\<rparr> \<and>
   update_handler
     \<lparr>rows = [\<lparr>task_id = 1, name = ''Buy milk'', info = [], isDone = False\<rparr>], seq = 1\<rparr>
     (body_request (no_props(''id'' := JNum 1, ''name'' := JStr ''Buy milk'',
        ''info'' := JStr ''2%'', ''isDone'' := JBool True))) =
     (\<lparr>status = 200,
       payload = TaskJson \<lparr>task_id = 1, name = ''Buy milk'', info = ''2%'', isDone = True\<rparr>\<rparr>,
      \<lparr>rows = [\<lparr>task_id = 1, name = ''Buy milk'', info = ''2%'', isDone = True\<rparr>], seq = 1\<rparr>) \<and>
   read_handler
     \<lparr>rows = [\<lparr>task_id = 1, name = ''Buy milk'', info = ''2%'', isDone = True\<rparr>], seq = 1\<rparr>
     (body_request no_props) =
     (\<lparr>status = 200,
       payload = TaskList [\<lparr>task_id = 1, name = ''Buy milk'', info = ''2%'', isDone = True\<rparr>]\<rparr>,
      \<lparr>rows = [\<lparr>task_id = 1, name = ''Buy milk'', info = ''2%'', isDone = True\<rparr>], seq = 1\<rparr>)"
proof -
  have inv: "store_inv
      \<lparr>rows = [\<lparr>task_id = 1, name = ''Buy milk'', info = [], isDone = False\<rparr>], seq = 1\<rparr>"
    by (simp add: store_inv_def)
  show ?thesis
    using inv update_existing_task [OF inv,
      of "\<lparr>task_id = 1, name = ''Buy milk'', info = [], isDone = False\<rparr>"
         "body_request (no_props(''id'' := JNum 1, ''name'' := JStr ''Buy milk'',
            ''info'' := JStr ''2%'', ''isDone'' := JBool True))"
         "''Buy milk''" "''2%''" True "body_request no_props"]
    by (simp add: body_request_def no_props_def Let_def)
qed

section \<open>The delete handler\<close>

text \<open>
  Claim C3. For every delete request whose path \<open>id\<close> parses to the \<open>id\<close> of an
  existing Task, the handler deletes that Task and responds 200 with the Task as it was
  before the deletion; after any further requests, a list response holds no Task of
  that \<open>id\<close>.
\<close>

theorem delete_existing_task:
  assumes "store_inv st" and "t \<in> set (rows st)"
    and "params req ''id'' = JStr s" and "parseInt s = Some (task_id t)"
  shows "let st' = st\<lparr>rows := filter (\<lambda>r. task_id r \<noteq> task_id t) (rows st)\<rparr>
         in delete_handler st req = (\<lparr>status = 200, payload = TaskJson t\<rparr>, st') \<and>
            (\<forall>ops req'.
               read_handler (run st' ops) req' =
                 (\<lparr>status = 200, payload = TaskList (rows (run st' ops))\<rparr>, run st' ops) \<and>
               task_id t \<notin> task_id ` set (rows (run st' ops)))"
proof -
  let ?st' = "st\<lparr>rows := filter (\<lambda>r. task_id r \<noteq> task_id t) (rows st)\<rparr>"
  have dist: "distinct (map task_id (rows st))" and le: "task_id t \<le> seq st"
    using assms(1,2) by (auto simp: store_inv_def list_all_iff)
  have "s \<noteq> []" using assms(4) parseInt_Nil by auto
  then have resp: "delete_handler st req = (\<lparr>status = 200, payload = TaskJson t\<rparr>, ?st')"
    using assms(3,4) by (simp add: delete_handler_eq tasks_delete_existing [OF dist assms(2)] settle_def)
  have gone: "task_id t \<notin> set (map task_id (rows (run ?st' ops)))" for ops
    by (rule run_retired) (use le in auto)
  show ?thesis
    using resp gone by (simp add: Let_def read_handler_def tasks_findMany_def)
qed

theorem delete_existing_task_witness:
  "store_inv \<lparr>rows = [\<lparr>task_id = 1, name = ''Buy milk'', info = ''2%'', isDone = True\<rparr>], seq = 1\<rparr> \<and>
   parseInt ''1'' = Some 1 \<and>
   delete_handler
     \<lparr>rows = [\<lparr>task_id = 1, name = ''Buy milk'', info = ''2%'', isDone = True\<rparr>], seq = 1\<rparr>
     (delete_request ''1'') =
     (\<lparr>status = 200,
       payload = TaskJson \<lparr>task_id = 1, name = ''Buy milk'', info = ''2%'', isDone = True\<rparr>\<rparr>,
      \<lparr>rows = [], seq = 1\<rparr>) \<and>
   read_handler (run \<lparr>rows = [], seq = 1\<rparr> []) (body_request no_props) =
     (\<lparr>status = 200, payload = TaskList []\<rparr>, \<lparr>rows = [], seq = 1\<rparr>)"
proof -
  have inv: "store_inv
      \<lparr>rows = [\<lparr>task_id = 1, name = ''Buy milk'', info = ''2%'', isDone = True\<rparr>], seq = 1\<rparr>"
    by (simp add: store_inv_def)
  have p: "parseInt ''1'' = Some 1"
    by (simp add: parseInt_def strip_sign_def strip_prefix_def is_ws_def radix_digit_def
        digit_value_def radix_value_def)
  show ?thesis
    using inv p delete_existing_task [OF inv,
      of "\<lparr>task_id = 1, name = ''Buy milk'', info = ''2%'', isDone = True\<rparr>"
         "delete_request ''1''" "''1''"]
    by (simp add: delete_request_def no_props_def Let_def read_handler_def tasks_findMany_def)
qed

text \<open>
  The path \<open>id\<close> \<^verbatim>\<open>0x1f\<close> begins with the digit 0, and the request deletes Task 31:
  \<^verbatim>\<open>parseInt\<close> reads the digits after \<^verbatim>\<open>0x\<close> in radix 16.
\<close>

theorem delete_hex_counterexample:
  "takeWhile is_digit ''0x1f'' = ''0'' \<and>
   delete_handler
     \<lparr>rows = [\<lparr>task_id = 31, name = ''Buy milk'', info = [], isDone = False\<rparr>], seq = 31\<rparr>
     (delete_request ''0x1f'') =
     (\<lparr>status = 200,
       payload = TaskJson \<lparr>task_id = 31, name = ''Buy milk'', info = [], isDone = False\<rparr>\<rparr>,
      \<lparr>rows = [], seq = 31\<rparr>)"
  by (simp add: is_digit_def delete_handler_def delete_chains_def select_def assign_def
      settle_def tasks_delete_def delete_request_def no_props_def parseInt_def strip_sign_def
      strip_prefix_def is_ws_def radix_digit_def digit_value_def radix_value_def)

text \<open>
  Claim C10, amended. Express binds \<^verbatim>\<open>:id\<close> to a non-empty path segment. For every
  delete request, also one whose \<open>id\<close> is not a decimal integer, validation passes and
  the handler gives \<^verbatim>\<open>parseInt(id)\<close> to the store delete. An \<open>id\<close> that begins with a run
  of decimal digits, and not with \<^verbatim>\<open>0x\<close> or \<^verbatim>\<open>0X\<close>, deletes the Task whose \<open>id\<close> is
  that run (\<^verbatim>\<open>12abc\<close> deletes Task 12); after \<^verbatim>\<open>0x\<close> or \<^verbatim>\<open>0X\<close> the hexadecimal digits
  that follow are read, \<^verbatim>\<open>NaN\<close> when there is none; an \<open>id\<close> with no decimal digit at
  all gives \<^verbatim>\<open>NaN\<close>, which the store refuses: the response is a 500 and the table is
  unchanged.
\<close>

theorem delete_parses_id:
  assumes "params req ''id'' = JStr s" and "s \<noteq> []"
  shows "delete_handler st req = settle st (tasks_delete st (parseInt s)) \<and>
     (\<forall>ds rest t.
        s = ds @ rest \<and> ds \<noteq> [] \<and> (\<forall>c \<in> set ds. is_digit c) \<and>
        (rest = [] \<or> \<not> is_digit (hd rest)) \<and> take 2 s \<noteq> ''0x'' \<and> take 2 s \<noteq> ''0X'' \<and>
        store_inv st \<and> t \<in> set (rows st) \<and> task_id t = int (radix_value 10 ds) \<longrightarrow>
        delete_handler st req =
          (\<lparr>status = 200, payload = TaskJson t\<rparr>,
           st\<lparr>rows := filter (\<lambda>r. task_id r \<noteq> task_id t) (rows st)\<rparr>)) \<and>
     (take 2 s = ''0x'' \<or> take 2 s = ''0X'' \<longrightarrow>
        parseInt s =
          (let z = takeWhile (radix_digit 16) (drop 2 s)
           in if z = [] then None else Some (int (radix_value 16 z)))) \<and>
     ((\<forall>c \<in> set s. \<not> is_digit c) \<longrightarrow>
        parseInt s = None \<and>
        delete_handler st req =
          (\<lparr>status = 500, payload = ErrorJson PrismaClientValidationError\<rparr>, st))"
proof (intro conjI allI impI)
  show eq: "delete_handler st req = settle st (tasks_delete st (parseInt s))"
    using assms by (rule delete_handler_eq)
  {
    fix ds rest t
    assume a: "s = ds @ rest \<and> ds \<noteq> [] \<and> (\<forall>c \<in> set ds. is_digit c) \<and>
        (rest = [] \<or> \<not> is_digit (hd rest)) \<and> take 2 s \<noteq> ''0x'' \<and> take 2 s \<noteq> ''0X'' \<and>
        store_inv st \<and> t \<in> set (rows st) \<and> task_id t = int (radix_value 10 ds)"
    then have "parseInt s = Some (int (radix_value 10 ds))"
      by (intro parseInt_decimal_run [of s ds rest]) blast+
    with a have p: "parseInt s = Some (task_id t)" by simp
    have "distinct (map task_id (rows st))" using a by (simp add: store_inv_def)
    moreover have "t \<in> set (rows st)" using a by simp
    ultimately have del: "tasks_delete st (Some (task_id t)) =
        Inr (t, st\<lparr>rows := filter (\<lambda>r. task_id r \<noteq> task_id t) (rows st)\<rparr>)"
      by (rule tasks_delete_existing)
    show "delete_handler st req =
          (\<lparr>status = 200, payload = TaskJson t\<rparr>,
           st\<lparr>rows := filter (\<lambda>r. task_id r \<noteq> task_id t) (rows st)\<rparr>)"
      unfolding eq p del by (simp add: settle_def)
  }
  {
    assume "take 2 s = ''0x'' \<or> take 2 s = ''0X''"
    then show "parseInt s =
          (let z = takeWhile (radix_digit 16) (drop 2 s)
           in if z = [] then None else Some (int (radix_value 16 z)))"
      by (rule parseInt_hex)
  }
  {
    assume "\<forall>c \<in> set s. \<not> is_digit c"
    then show n: "parseInt s = None" by (rule parseInt_no_digit)
    then show "delete_handler st req =
          (\<lparr>status = 500, payload = ErrorJson PrismaClientValidationError\<rparr>, st)"
      by (simp add: eq tasks_delete_def settle_def)
  }
qed

theorem delete_parses_id_witness:
  "params (delete_request ''12abc'') ''id'' = JStr ''12abc'' \<and> ''12abc'' \<noteq> [] \<and>
   int (radix_value 10 ''12'') = 12 \<and>
   delete_handler
     \<lparr>rows = [\<lparr>task_id = 12, name = ''Buy milk'', info = [], isDone = False\<rparr>], seq = 12\<rparr>
     (delete_request ''12abc'') =
     (\<lparr>status = 200,
       payload = TaskJson \<lparr>task_id = 12, name = ''Buy milk'', info = [], isDone = False\<rparr>\<rparr>,
      \<lparr>rows = [], seq = 12\<rparr>) \<and>
   delete_handler empty_store (delete_request ''abc'') =
     (\<lparr>status = 500, payload = ErrorJson PrismaClientValidationError\<rparr>, empty_store)"
proof -
  let ?t = "\<lparr>task_id = 12, name = ''Buy milk'', info = [], isDone = False\<rparr>"
  let ?st = "\<lparr>rows = [?t], seq = 12\<rparr>"
  have id1: "params (delete_request ''12abc'') ''id'' = JStr ''12abc''"
    and id2: "params (delete_request ''abc'') ''id'' = JStr ''abc''"
    by (simp_all add: delete_request_def)
  have v: "int (radix_value 10 ''12'') = 12"
    by (simp add: radix_value_def digit_value_def)
  have pre: "''12abc'' = ''12'' @ ''abc'' \<and> ''12'' \<noteq> [] \<and> (\<forall>c \<in> set ''12''. is_digit c) \<and>
      (''abc'' = [] \<or> \<not> is_digit (hd ''abc'')) \<and> take 2 ''12abc'' \<noteq> ''0x'' \<and>
      take 2 ''12abc'' \<noteq> ''0X'' \<and> store_inv ?st \<and> ?t \<in> set (rows ?st) \<and>
      task_id ?t = int (radix_value 10 ''12'')"
    by (simp add: is_digit_def store_inv_def v)
  have "\<forall>ds rest t.
        ''12abc'' = ds @ rest \<and> ds \<noteq> [] \<and> (\<forall>c \<in> set ds. is_digit c) \<and>
        (rest = [] \<or> \<not> is_digit (hd rest)) \<and> take 2 ''12abc'' \<noteq> ''0x'' \<and>
        take 2 ''12abc'' \<noteq> ''0X'' \<and>
        store_inv ?st \<and> t \<in> set (rows ?st) \<and> task_id t = int (radix_value 10 ds) \<longrightarrow>
        delete_handler ?st (delete_request ''12abc'') =
          (\<lparr>status = 200, payload = TaskJson t\<rparr>,
           ?st\<lparr>rows := filter (\<lambda>r. task_id r \<noteq> task_id t) (rows ?st)\<rparr>)"
    using delete_parses_id [OF id1, of ?st] by simp
  from this [THEN spec, THEN spec, THEN spec, THEN mp, OF pre]
  have r1: "delete_handler ?st (delete_request ''12abc'') =
     (\<lparr>status = 200, payload = TaskJson ?t\<rparr>, \<lparr>rows = [], seq = 12\<rparr>)"
    by simp
  have nd: "\<forall>c \<in> set ''abc''. \<not> is_digit c"
    by (simp add: is_digit_def)
  have r2: "delete_handler empty_store (delete_request ''abc'') =
     (\<lparr>status = 500, payload = ErrorJson PrismaClientValidationError\<rparr>, empty_store)"
    using delete_parses_id [OF id2, of empty_store] nd by blast
  show ?thesis using id1 v r1 r2 by simp
qed

section \<open>Ids that match no Task, and the identity of a Task\<close>

text \<open>
  Claim C5. For every update request whose \<open>id\<close> is not the number of a Task in the
  table, and for every delete request whose (non-empty) path \<open>id\<close> does not parse to
  the \<open>id\<close> of a Task in the table, the response has status 500 and carries the
  store's error, never a Task, and the store is unchanged.
\<close>

theorem unknown_id_is_500:
  "(\<not> (\<exists>t \<in> set (rows st). body req ''id'' = JNum (task_id t)) \<longrightarrow>
      (\<exists>err. update_handler st req = (\<lparr>status = 500, payload = ErrorJson err\<rparr>, st))) \<and>
   (params req ''id'' = JStr s \<and> s \<noteq> [] \<and>
    \<not> (\<exists>t \<in> set (rows st). parseInt s = Some (task_id t)) \<longrightarrow>
      (\<exists>err. delete_handler st req = (\<lparr>status = 500, payload = ErrorJson err\<rparr>, st)))"
proof (intro conjI impI)
  assume "\<not> (\<exists>t \<in> set (rows st). body req ''id'' = JNum (task_id t))"
  from tasks_update_unknown [OF this]
  obtain err where "tasks_update st (body req ''id'') (body req ''name'') (body req ''info'')
      (body req ''isDone'') = Inl err" by blast
  then show "\<exists>err. update_handler st req = (\<lparr>status = 500, payload = ErrorJson err\<rparr>, st)"
    by (simp add: update_handler_eq settle_def)
next
  assume a: "params req ''id'' = JStr s \<and> s \<noteq> [] \<and>
    \<not> (\<exists>t \<in> set (rows st). parseInt s = Some (task_id t))"
  then obtain err where "tasks_delete st (parseInt s) = Inl err"
    using tasks_delete_unknown by blast
  with a show "\<exists>err. delete_handler st req = (\<lparr>status = 500, payload = ErrorJson err\<rparr>, st)"
    by (simp add: delete_handler_eq settle_def)
qed

theorem unknown_id_is_500_witness:
  "rows empty_store = [] \<and>
   update_handler empty_store (body_request (no_props(''id'' := JNum 1, ''name'' := JStr ''Buy milk''))) =
     (\<lparr>status = 500, payload = ErrorJson RecordNotFound\<rparr>, empty_store) \<and>
   delete_handler empty_store (delete_request ''1'') =
     (\<lparr>status = 500, payload = ErrorJson RecordNotFound\<rparr>, empty_store)"
proof -
  let ?u = "body_request (no_props(''id'' := JNum 1, ''name'' := JStr ''Buy milk''))"
  have e: "rows empty_store = []" by (simp add: empty_store_def)
  have id: "params (delete_request ''1'') ''id'' = JStr ''1''" by (simp add: delete_request_def)
  note th = unknown_id_is_500 [of empty_store ?u "''1''"]
  from th e obtain err where
    u: "update_handler empty_store ?u = (\<lparr>status = 500, payload = ErrorJson err\<rparr>, empty_store)"
    by auto
  have "err = RecordNotFound"
    using u by (simp add: update_handler_eq body_request_def no_props_def settle_def
        tasks_update_def empty_store_def)
  with u have ru: "update_handler empty_store ?u =
      (\<lparr>status = 500, payload = ErrorJson RecordNotFound\<rparr>, empty_store)" by simp
  note th' = unknown_id_is_500 [of empty_store "delete_request ''1''" "''1''"]
  from th' e id obtain err' where
    d: "delete_handler empty_store (delete_request ''1'') =
      (\<lparr>status = 500, payload = ErrorJson err'\<rparr>, empty_store)"
    by auto
  have p: "parseInt ''1'' = Some 1"
    by (simp add: parseInt_def strip_sign_def strip_prefix_def is_ws_def radix_digit_def
        digit_value_def radix_value_def)
  have "err' = RecordNotFound"
    using d id by (simp add: delete_handler_eq p settle_def tasks_delete_def empty_store_def)
  with d have rd: "delete_handler empty_store (delete_request ''1'') =
      (\<lparr>status = 500, payload = ErrorJson RecordNotFound\<rparr>, empty_store)" by simp
  show ?thesis using e ru rd by simp
qed

text \<open>
  Create a Task, delete it, list: the list response is the empty array, and the \<open>id\<close>
  of the created Task is in it no more.
\<close>

theorem id_listed_after_delete_counterexample:
  "create_handler empty_store (body_request (no_props(''name'' := JStr ''Buy milk''))) =
     (\<lparr>status = 200,
       payload = TaskJson \<lparr>task_id = 1, name = ''Buy milk'', info = [], isDone = False\<rparr>\<rparr>,
      \<lparr>rows = [\<lparr>task_id = 1, name = ''Buy milk'', info = [], isDone = False\<rparr>], seq = 1\<rparr>) \<and>
   read_handler
     (run \<lparr>rows = [\<lparr>task_id = 1, name = ''Buy milk'', info = [], isDone = False\<rparr>], seq = 1\<rparr>
        [Delete (delete_request ''1'')])
     (body_request no_props) =
     (\<lparr>status = 200, payload = TaskList []\<rparr>, \<lparr>rows = [], seq = 1\<rparr>) \<and>
   length (filter (\<lambda>r. task_id r = 1) []) = 0"
  by (simp add: empty_store_def create_handler_def create_chains_def read_handler_def
      tasks_findMany_def delete_handler_def delete_chains_def assign_def select_def
      body_request_def delete_request_def no_props_def settle_def tasks_create_def
      tasks_delete_def Let_def parseInt_def strip_sign_def strip_prefix_def
      is_ws_def radix_digit_def digit_value_def radix_value_def)

text \<open>
  Claim C7, amended. The ids of the table are pairwise distinct and not beyond the
  sequence, and every operation, hence every run of operations, keeps it so; an update
  changes no \<open>id\<close>. After a successful create the \<open>id\<close> of the created Task was not in
  the table before, and the list response that follows holds it exactly once. After
  any further requests a list response holds it at most once, and exactly once as long
  as none of these requests is a delete of that \<open>id\<close>.
\<close>

theorem id_identifies_task:
  assumes "store_inv st"
  shows "store_inv (snd (step st op)) \<and> store_inv (run st ops) \<and>
     map task_id (rows (snd (update_handler st req))) = map task_id (rows st) \<and>
     (\<forall>t st'. create_handler st req = (\<lparr>status = 200, payload = TaskJson t\<rparr>, st') \<longrightarrow>
        task_id t \<notin> task_id ` set (rows st) \<and>
        read_handler st' req' = (\<lparr>status = 200, payload = TaskList (rows st')\<rparr>, st') \<and>
        length (filter (\<lambda>r. task_id r = task_id t) (rows st')) = 1 \<and>
        read_handler (run st' ops) req' =
          (\<lparr>status = 200, payload = TaskList (rows (run st' ops))\<rparr>, run st' ops) \<and>
        length (filter (\<lambda>r. task_id r = task_id t) (rows (run st' ops))) \<le> 1 \<and>
        ((\<forall>op \<in> set ops. \<not> deletes (task_id t) op) \<longrightarrow>
           length (filter (\<lambda>r. task_id r = task_id t) (rows (run st' ops))) = 1))"
proof (intro conjI allI impI)
  show "store_inv (snd (step st op))" by (rule step_inv [OF assms])
  show "store_inv (run st ops)" by (rule run_inv [OF assms])
  show "map task_id (rows (snd (update_handler st req))) = map task_id (rows st)"
    using update_handler_cases [of st req] by (cases "update_handler st req") simp
next
  fix t st'
  assume c: "create_handler st req = (\<lparr>status = 200, payload = TaskJson t\<rparr>, st')"
  from create_handler_created [OF c]
  have id: "task_id t = seq st + 1" and r: "rows st' = rows st @ [t]" by simp_all
  have below: "\<forall>r \<in> set (rows st). task_id r \<le> seq st"
    using assms by (simp add: store_inv_def list_all_iff)
  then have fresh: "\<forall>r \<in> set (rows st). task_id r \<noteq> task_id t"
    using id by auto
  then show "task_id t \<notin> task_id ` set (rows st)" by auto
  show "read_handler st' req' = (\<lparr>status = 200, payload = TaskList (rows st')\<rparr>, st')"
    by (simp add: read_handler_def tasks_findMany_def)
  show "read_handler (run st' ops) req' =
          (\<lparr>status = 200, payload = TaskList (rows (run st' ops))\<rparr>, run st' ops)"
    by (simp add: read_handler_def tasks_findMany_def)
  show "length (filter (\<lambda>r. task_id r = task_id t) (rows st')) = 1"
    using filter_fresh_id [OF fresh] r by simp
  have "store_inv st'"
    using step_inv [OF assms, of "Create req"] c by simp
  then have "store_inv (run st' ops)" by (rule run_inv)
  then have dist: "distinct (map task_id (rows (run st' ops)))" by (simp add: store_inv_def)
  then show "length (filter (\<lambda>r. task_id r = task_id t) (rows (run st' ops))) \<le> 1"
    by (rule count_id_distinct)
  assume nodel: "\<forall>op \<in> set ops. \<not> deletes (task_id t) op"
  have "task_id t \<in> set (map task_id (rows st'))" using r by simp
  then have "task_id t \<in> set (map task_id (rows (run st' ops)))"
    using nodel by (rule run_keeps)
  with dist show "length (filter (\<lambda>r. task_id r = task_id t) (rows (run st' ops))) = 1"
    by (rule count_id_present)
qed

theorem id_identifies_task_witness:
  "store_inv empty_store \<and>
   create_handler empty_store (body_request (no_props(''name'' := JStr ''Buy milk''))) =
     (\<lparr>status = 200,
       payload = TaskJson \<lparr>task_id = 1, name = ''Buy milk'', info = [], isDone = False\<rparr>\<rparr>,
      \<lparr>rows = [\<lparr>task_id = 1, name = ''Buy milk'', info = [], isDone = False\<rparr>], seq = 1\<rparr>) \<and>
   store_inv \<lparr>rows = [\<lparr>task_id = 1, name = ''Buy milk'', info = [], isDone = False\<rparr>], seq = 1\<rparr> \<and>
   length (filter (\<lambda>r. task_id r = 1)
     (rows \<lparr>rows = [\<lparr>task_id = 1, name = ''Buy milk'', info = [], isDone = False\<rparr>], seq = 1\<rparr>)) = 1 \<and>
   \<not> deletes 1 (Read (body_request no_props)) \<and>
   \<not> deletes 1 (Delete (delete_request ''2'')) \<and>
   length (filter (\<lambda>r. task_id r = 1)
     (rows (run \<lparr>rows = [\<lparr>task_id = 1, name = ''Buy milk'', info = [], isDone = False\<rparr>], seq = 1\<rparr>
        [Read (body_request no_props), Delete (delete_request ''2'')]))) = 1"
proof -
  let ?req = "body_request (no_props(''name'' := JStr ''Buy milk''))"
  let ?t = "\<lparr>task_id = 1, name = ''Buy milk'', info = [], isDone = False\<rparr>"
  let ?st = "\<lparr>rows = [?t], seq = 1\<rparr>"
  let ?ops = "[Read (body_request no_props), Delete (delete_request ''2'')]"
  have inv: "store_inv empty_store"
    by (simp add: store_inv_def empty_store_def)
  have c: "create_handler empty_store ?req = (\<lparr>status = 200, payload = TaskJson ?t\<rparr>, ?st)"
    by (simp add: create_handler_def create_chains_def assign_def select_def body_request_def
        no_props_def settle_def tasks_create_def empty_store_def Let_def)
  have n1: "\<not> deletes 1 (Read (body_request no_props))" by simp
  have n2: "\<not> deletes 1 (Delete (delete_request ''2''))"
    by (simp add: delete_request_def parseInt_def strip_sign_def strip_prefix_def is_ws_def
        radix_digit_def digit_value_def radix_value_def)
  have nodel: "\<forall>op \<in> set ?ops. \<not> deletes (task_id ?t) op"
    using n1 n2 by simp
  note th = id_identifies_task [OF inv, of "Create ?req" ?ops ?req ?req]
  from th have "store_inv (snd (step empty_store (Create ?req)))" by (rule conjunct1)
  then have inv': "store_inv ?st" using c by simp
  from th have "\<forall>t st'. create_handler empty_store ?req =
        (\<lparr>status = 200, payload = TaskJson t\<rparr>, st') \<longrightarrow>
        length (filter (\<lambda>r. task_id r = task_id t) (rows st')) = 1 \<and>
        ((\<forall>op \<in> set ?ops. \<not> deletes (task_id t) op) \<longrightarrow>
           length (filter (\<lambda>r. task_id r = task_id t) (rows (run st' ?ops))) = 1)"
    by blast
  from this [THEN spec, THEN spec, THEN mp, OF c] nodel
  have "length (filter (\<lambda>r. task_id r = task_id ?t) (rows ?st)) = 1"
    and "length (filter (\<lambda>r. task_id r = task_id ?t) (rows (run ?st ?ops))) = 1"
    by blast+
  then have once: "length (filter (\<lambda>r. task_id r = 1) (rows ?st)) = 1"
    and later: "length (filter (\<lambda>r. task_id r = 1) (rows (run ?st ?ops))) = 1"
    by simp_all
  show ?thesis using inv c inv' once n1 n2 later by blast
qed

end
